theory Spec2Isabelle
  imports Main
begin

section \<open>The protocol client of src/chrome.ts\<close>

text \<open>
  The class \<open>ChromeImpl\<close> drives a browser over a message transport. This theory embeds
  its state and its methods as functions on an explicit state record. JavaScript runs one
  synchronous block at a time, so every method body between two \<open>await\<close>s is one function
  of the state; what arrives from the transport, and the order in which callers and
  binding tasks get their turn, are inputs.

  Conventions: an optional or absent JSON field is an \<open>option\<close> (a JSON \<open>null\<close> behaves as
  an absent field at every place the source reads one); a present field has the type the
  source declares for it; request ids and sequence numbers are unbounded integers;
  \<open>JSON.parse\<close> and \<open>JSON.stringify\<close> belong to the runtime and are parameters \<open>parse\<close>
  and \<open>stringify\<close> of the functions that call them.
\<close>

subsection \<open>Data\<close>

datatype json =
    JNull
  | JBool bool
  | JNum int
  | JStr string
  | JArr "json list"
  | JObj "(string \<times> json) list"

text \<open>What a method of the client can throw.\<close>

datatype js_error =
    AssertionError string
  | TypeError string
  | SyntaxError string
  | TransportError string
  | TargetError string

text \<open>The message nested in a \<open>Target.sendMessageToTarget\<close> call (sent as JSON text).\<close>

record inner_request =
  i_id :: int
  i_method :: string
  i_params :: json

text \<open>
  The fields that \<open>sendMessage\<close> spreads into an envelope after \<open>id\<close> and \<open>method\<close>:
  \<open>{params: {discover: true}}\<close> in \<open>findTarget\<close>, \<open>{id, params: {targetId}}\<close> in
  \<open>startSession\<close>, \<open>{params: {message, sessionId}}\<close> in \<open>sendMessageToTarget\<close>.
\<close>

datatype out_args =
    Discover
  | Attach int string
  | ToTarget inner_request string

record outgoing =
  o_id :: int
  o_method :: string
  o_args :: out_args

text \<open>\<open>IncommingMessage\<close>, as far as the client reads it.\<close>

record target_info =
  ti_type :: string
  ti_targetId :: string

record in_params =
  p_sessionId :: "string option"
  p_message :: "string option"
  p_targetId :: "string option"
  p_targetInfo :: "target_info option"

record in_result =
  r_sessionId :: "string option"

record incoming =
  m_id :: "int option"
  m_method :: "string option"
  m_params :: "in_params option"
  m_error :: "string option"
  m_result :: "in_result option"

text \<open>
  Modelled from the spec: \<open>Transport.receive\<close> (transport.ts is not among the sources),
  which suspends until one message or a failure. What \<open>await this.#transport.receive()\<close>
  produces is a message, or a failure with the error thrown and whether the transport
  reports closed afterwards.
\<close>

datatype recv = Message incoming | Failure string bool

text \<open>\<open>TargetReceivedMessageFromTargetMessage\<close> and \<open>RuntimeBindingCalledParams\<close>.\<close>

record binding_payload =
  pl_name :: string
  pl_seq :: int
  pl_args :: "json list"

record binding_called =
  bc_id :: int
  bc_name :: string
  bc_payload :: binding_payload

record protocol_error =
  e_message :: "string option"

record remote_object =
  ro_description :: "string option"
  ro_type :: "string option"
  ro_subtype :: "string option"
  ro_value :: "json option"

record exception_obj =
  ex_value :: "json option"

record exception_details =
  ed_exception :: "exception_obj option"

record result_obj =
  res_inner :: "remote_object option"
  res_exceptionDetails :: "exception_details option"

record target_message =
  res_id :: "int option"
  res_method :: "string option"
  res_params :: "binding_called option"
  res_error :: "protocol_error option"
  res_result :: "result_obj option"

text \<open>
  A \<open>Deferred\<close> is an address in a store of promises. A promise is settled by the value it
  was resolved with, or by the message of the \<open>EvaluateError\<close> it was rejected with.
\<close>

datatype resolved = Serialized "string option" | RawResult result_obj

datatype settlement = Resolved resolved | Rejected string

text \<open>A binding returns a value or throws an error with a message.\<close>

datatype binding_result = Returns json | Throws string

type_synonym binding = "json list \<Rightarrow> binding_result"

text \<open>
  The part of the asynchronous function of lines 226 to 249 that runs after
  \<open>await binding(payload.args)\<close>: it holds what the binding produced and the variables
  it closes over.
\<close>

record task =
  t_outcome :: binding_result
  t_name :: string
  t_seq :: int
  t_context :: int

datatype log_entry = Log string | Error string

datatype loop_state = Running | Stopped | Crashed js_error

record chrome =
  transport_closed :: bool
  outbox :: "outgoing list"
  stderr_closed :: bool
  process_closed :: bool
  exit_calls :: nat
  logged :: "log_entry list"
  pending :: "int \<rightharpoonup> nat"
  bindings :: "string \<rightharpoonup> binding"
  target :: "string option"
  session :: "string option"
  lastId :: int
  promises :: "nat \<rightharpoonup> settlement"
  next_promise :: nat
  tasks :: "task list"
  invoked :: "(string \<times> json list) list"
  loop :: loop_state

text \<open>\<open>new ChromeImpl(process, transport)\<close> on an open transport; the loop has not failed.\<close>

definition new_chrome :: chrome where
  "new_chrome =
     \<lparr>transport_closed = False, outbox = [], stderr_closed = False, process_closed = False,
      exit_calls = 0, logged = [], pending = Map.empty, bindings = Map.empty,
      target = None, session = None, lastId = 0, promises = Map.empty, next_promise = 0,
      tasks = [], invoked = [], loop = Running\<rparr>"

subsection \<open>Sending\<close>

text \<open>JavaScript truthiness of a string that may be absent.\<close>

fun truthy :: "string option \<Rightarrow> bool" where
  "truthy None = False"
| "truthy (Some s) = (s \<noteq> [])"

text \<open>
  Modelled from the spec: \<open>Transport.send\<close>, whose code (transport.ts) is not among the
  sources. The spec gives \<open>send(object) -> void (fails if the channel is closed)\<close>: on an
  open transport the message is handed over and the call returns, on a closed one the call
  throws. Of the transport the state keeps whether it is closed (\<open>isClosed\<close>, set by
  \<open>close\<close>) and what has been handed to it.
\<close>

definition transport_send :: "outgoing \<Rightarrow> chrome \<Rightarrow> (js_error + unit) \<times> chrome" where
  "transport_send msg s =
     (if transport_closed s then (Inl (TransportError ''closed''), s)
      else (Inr (), s\<lparr>outbox := outbox s @ [msg]\<rparr>))"

text \<open>\<open>deferred()\<close>: a fresh, unsettled promise.\<close>

definition deferred :: "chrome \<Rightarrow> nat \<times> chrome" where
  "deferred s = (next_promise s, s\<lparr>next_promise := Suc (next_promise s)\<rparr>)"

text \<open>Lines 144 to 154: send first, then create the promise and store it under the id.\<close>

definition sendMessage :: "int \<Rightarrow> string \<Rightarrow> out_args \<Rightarrow> chrome \<Rightarrow> (js_error + nat) \<times> chrome" where
  "sendMessage ident method args s =
     (case transport_send \<lparr>o_id = ident, o_method = method, o_args = args\<rparr> s of
        (Inl e, s1) \<Rightarrow> (Inl e, s1)
      | (Inr _, s1) \<Rightarrow>
          (case deferred s1 of
             (promise, s2) \<Rightarrow> (Inr promise, s2\<lparr>pending := (pending s2)(ident \<mapsto> promise)\<rparr>)))"

text \<open>Lines 124 to 127: \<open>++this.#lastId\<close>.\<close>

definition nextId :: "chrome \<Rightarrow> int \<times> chrome" where
  "nextId s = (lastId s + 1, s\<lparr>lastId := lastId s + 1\<rparr>)"

text \<open>Lines 129 to 142.\<close>

definition sendMessageToTarget :: "string \<Rightarrow> json \<Rightarrow> chrome \<Rightarrow> (js_error + nat) \<times> chrome" where
  "sendMessageToTarget method args s =
     (if \<not> truthy (session s) then (Inl (AssertionError ''session must be created''), s)
      else
        (case nextId s of
           (ident, s1) \<Rightarrow>
             sendMessage ident ''Target.sendMessageToTarget''
               (ToTarget \<lparr>i_id = ident, i_method = method, i_params = args\<rparr>
                  (case session s1 of Some sid \<Rightarrow> sid | None \<Rightarrow> [])) s1))"

text \<open>Callers issue a series of requests, one after the other; each gets its promise.\<close>

fun issue :: "(string \<times> json) list \<Rightarrow> chrome \<Rightarrow> (js_error + nat) list \<times> chrome" where
  "issue [] s = ([], s)"
| "issue ((method, args) # reqs) s =
     (case sendMessageToTarget method args s of
        (p, s1) \<Rightarrow> (case issue reqs s1 of (ps, s2) \<Rightarrow> (p # ps, s2)))"

text \<open>Lines 110 to 116.\<close>

definition evaluate :: "string \<Rightarrow> chrome \<Rightarrow> (js_error + nat) \<times> chrome" where
  "evaluate expr s =
     sendMessageToTarget ''Runtime.evaluate''
       (JObj [(''expression'', JStr expr), (''awaitPromise'', JBool True),
              (''returnByValue'', JBool True)]) s"

text \<open>Lines 118 to 122. \<open>exit_calls\<close> counts the calls.\<close>

definition exit :: "chrome \<Rightarrow> chrome" where
  "exit s = s\<lparr>stderr_closed := True, transport_closed := True, process_closed := True,
              exit_calls := Suc (exit_calls s)\<rparr>"

subsection \<open>Bootstrap\<close>

text \<open>Lines 287 to 305: the three guards on an incoming message.\<close>

definition hasId :: "incoming \<Rightarrow> int \<Rightarrow> bool" where
  "hasId x ident = (m_id x = Some ident)"

definition hasError :: "incoming \<Rightarrow> bool" where
  "hasError x = (m_error x \<noteq> None)"

definition isTargetCreated :: "incoming \<Rightarrow> bool" where
  "isTargetCreated x = (m_method x = Some ''Target.targetCreated'')"

text \<open>
  The two bootstrap loops read from the transport themselves. They are given the list of
  what the transport will deliver and return what is left of it. The result is \<open>None\<close>
  when the list runs out: the method then waits in \<open>receive\<close> and does not return.
\<close>

fun findTarget_wait ::
  "recv list \<Rightarrow> chrome \<Rightarrow> ((js_error + string) option \<times> recv list) \<times> chrome" where
  "findTarget_wait [] s = ((None, []), s)"
| "findTarget_wait (Failure err closes # rest) s =
     ((Some (Inl (TransportError err)), rest), s\<lparr>transport_closed := closes\<rparr>)"
| "findTarget_wait (Message m # rest) s =
     (if isTargetCreated m then
        (case m_params m of
           None \<Rightarrow> ((Some (Inl (TypeError ''params is undefined'')), rest), s)
         | Some ps \<Rightarrow>
             (case p_targetInfo ps of
                None \<Rightarrow> ((Some (Inl (TypeError ''targetInfo is undefined'')), rest), s)
              | Some ti \<Rightarrow>
                  if ti_type ti = ''page'' then ((Some (Inr (ti_targetId ti)), rest), s)
                  else findTarget_wait rest s))
      else findTarget_wait rest s)"

text \<open>Lines 97 to 108.\<close>

definition findTarget ::
  "recv list \<Rightarrow> chrome \<Rightarrow> ((js_error + string) option \<times> recv list) \<times> chrome" where
  "findTarget rs s =
     (case sendMessage 0 ''Target.setDiscoverTargets'' Discover s of
        (Inl e, s1) \<Rightarrow> ((Some (Inl e), rs), s1)
      | (Inr _, s1) \<Rightarrow> findTarget_wait rs s1)"

fun startSession_wait ::
  "int \<Rightarrow> recv list \<Rightarrow> chrome \<Rightarrow> ((js_error + unit) option \<times> recv list) \<times> chrome" where
  "startSession_wait ident [] s = ((None, []), s)"
| "startSession_wait ident (Failure err closes # rest) s =
     ((Some (Inl (TransportError err)), rest), s\<lparr>transport_closed := closes\<rparr>)"
| "startSession_wait ident (Message m # rest) s =
     (if hasId m ident then
        (if hasError m then
           ((Some (Inl (TargetError (''Target error: '' @ (case m_error m of Some e \<Rightarrow> e | None \<Rightarrow> [])))),
             rest), s)
         else
           (case m_result m of
              None \<Rightarrow> startSession_wait ident rest s
            | Some r \<Rightarrow>
                if truthy (r_sessionId r) then ((Some (Inr ()), rest), s\<lparr>session := r_sessionId r\<rparr>)
                else startSession_wait ident rest s))
      else startSession_wait ident rest s)"

text \<open>Lines 74 to 95.\<close>

definition startSession ::
  "string \<Rightarrow> recv list \<Rightarrow> chrome \<Rightarrow> ((js_error + unit) option \<times> recv list) \<times> chrome" where
  "startSession targetId rs s =
     (case sendMessage 1 ''Target.attachToTarget'' (Attach 1 targetId) (s\<lparr>target := Some targetId\<rparr>) of
        (Inl e, s1) \<Rightarrow> ((Some (Inl e), rs), s1)
      | (Inr _, s1) \<Rightarrow> startSession_wait 1 rs s1)"

subsection \<open>The binding bridge\<close>

text \<open>
  \<open>sprintf\<close> is std/fmt/printf of the runtime's library: \<open>%[n]s\<close> inserts the n-th argument,
  a string, as it is, and \<open>%[n]d\<close> the n-th argument, an integer, in decimal.
\<close>

fun dec_nat :: "nat \<Rightarrow> string" where
  "dec_nat n =
     (if n < 10 then [''0123456789'' ! n] else dec_nat (n div 10) @ [''0123456789'' ! (n mod 10)])"

declare dec_nat.simps [simp del]

definition fmt_d :: "int \<Rightarrow> string" where
  "fmt_d i = (if i < 0 then CHR ''-'' # dec_nat (nat (- i)) else dec_nat (nat i))"

definition nl :: string where
  "nl = [CHR 0x0A]"

text \<open>The indentation of the template's lines: a tab, two spaces, then \<open>n\<close> tabs.\<close>

definition ind :: "nat \<Rightarrow> string" where
  "ind n = CHR 0x09 # ''  '' @ replicate n (CHR 0x09)"

definition quoted :: "string \<Rightarrow> string" where
  "quoted s = CHR 0x27 # s @ [CHR 0x27]"

text \<open>Lines 235 to 243: the template with its four arguments put in.\<close>

definition bindingExpr :: "string \<Rightarrow> int \<Rightarrow> string \<Rightarrow> string \<Rightarrow> string" where
  "bindingExpr name seq result error =
     nl @ ind 6 @ ''if ('' @ error @ '') {'' @
     nl @ ind 7 @ ''window['' @ quoted name @ '']['' @ quoted ''errors'' @ ''].get('' @ fmt_d seq @
       '')('' @ error @ '');'' @
     nl @ ind 6 @ ''} else {'' @
     nl @ ind 7 @ ''window['' @ quoted name @ '']['' @ quoted ''callbacks'' @ ''].get('' @ fmt_d seq @
       '')('' @ result @ '');'' @
     nl @ ind 6 @ ''}'' @
     nl @ ind 6 @ ''window['' @ quoted name @ '']['' @ quoted ''callbacks'' @ ''].delete('' @
       fmt_d seq @ '');'' @
     nl @ ind 6 @ ''window['' @ quoted name @ '']['' @ quoted ''errors'' @ ''].delete('' @
       fmt_d seq @ '');'' @
     nl @ replicate 16 (CHR '' '')"

text \<open>
  Lines 227 to 248, after the binding has completed: \<open>result\<close> and \<open>error\<close> start as empty
  strings and one of them is overwritten; the expression is sent with the context id.
\<close>

definition task_result :: "(json \<Rightarrow> string) \<Rightarrow> binding_result \<Rightarrow> string" where
  "task_result stringify out = (case out of Returns r \<Rightarrow> stringify r | Throws msg \<Rightarrow> [])"

definition task_error :: "binding_result \<Rightarrow> string" where
  "task_error out = (case out of Returns r \<Rightarrow> [] | Throws msg \<Rightarrow> msg)"

definition task_followup :: "(json \<Rightarrow> string) \<Rightarrow> task \<Rightarrow> chrome \<Rightarrow> chrome" where
  "task_followup stringify t s =
     snd (sendMessageToTarget ''Runtime.evaluate''
            (JObj [(''expression'',
                    JStr (bindingExpr (t_name t) (t_seq t)
                            (task_result stringify (t_outcome t)) (task_error (t_outcome t)))),
                   (''contextId'', JNum (t_context t))]) s)"

text \<open>
  The \<open>i\<close>-th task in flight completes: bindings may finish in any order. The promise of
  the follow-up call is not kept.
\<close>

definition finish_task :: "(json \<Rightarrow> string) \<Rightarrow> nat \<Rightarrow> chrome \<Rightarrow> chrome" where
  "finish_task stringify i s =
     (if i < length (tasks s)
      then task_followup stringify (tasks s ! i) (s\<lparr>tasks := take i (tasks s) @ drop (Suc i) (tasks s)\<rparr>)
      else s)"

subsection \<open>The read loop\<close>

text \<open>\<open>resolve\<close> and \<open>reject\<close> of a promise: only the first call has an effect.\<close>

definition settle :: "nat \<Rightarrow> settlement \<Rightarrow> chrome \<Rightarrow> chrome" where
  "settle h v s =
     (case promises s h of
        None \<Rightarrow> s\<lparr>promises := (promises s)(h \<mapsto> v)\<rparr>
      | Some _ \<Rightarrow> s)"

text \<open>\<open>res.result.exceptionDetails?.exception?.value\<close>.\<close>

definition exception_value :: "result_obj \<Rightarrow> json option" where
  "exception_value r =
     (case res_exceptionDetails r of
        None \<Rightarrow> None
      | Some d \<Rightarrow> (case ed_exception d of None \<Rightarrow> None | Some x \<Rightarrow> ex_value x))"

text \<open>\<open>res.error?.message\<close>.\<close>

definition error_message :: "target_message \<Rightarrow> string option" where
  "error_message res = (case res_error res of None \<Rightarrow> None | Some e \<Rightarrow> e_message e)"

text \<open>
  Lines 261 to 272: how the promise of a response is settled. Reading \<open>res.result\<close> when the
  message has none throws.
\<close>

definition settlement_of :: "(json \<Rightarrow> string) \<Rightarrow> target_message \<Rightarrow> js_error + settlement" where
  "settlement_of stringify res =
     (if truthy (error_message res)
      then Inr (Rejected (case error_message res of Some msg \<Rightarrow> msg | None \<Rightarrow> []))
      else
        (case res_result res of
           None \<Rightarrow> Inl (TypeError ''result is undefined'')
         | Some r \<Rightarrow>
             (case exception_value r of
                Some v \<Rightarrow> Inr (Rejected (stringify v))
              | None \<Rightarrow>
                  (case res_inner r of
                     None \<Rightarrow> Inr (Resolved (RawResult r))
                   | Some ro \<Rightarrow>
                       if ro_type ro = Some ''object'' \<and> ro_subtype ro = Some ''error''
                       then Inr (Rejected (case ro_description ro of Some d \<Rightarrow> d | None \<Rightarrow> []))
                       else if truthy (ro_type ro)
                       then Inr (Resolved (Serialized (map_option stringify (ro_value ro))))
                       else Inr (Resolved (RawResult r))))))"

text \<open>Line 212.\<close>

definition log_message :: "string \<Rightarrow> chrome \<Rightarrow> chrome" where
  "log_message txt s = s\<lparr>logged := logged s @ [Log txt]\<rparr>"

text \<open>An exception that leaves \<open>readLoop\<close>: the loop is over and its promise is rejected.\<close>

definition crash :: "js_error \<Rightarrow> chrome \<Rightarrow> chrome" where
  "crash e s = s\<lparr>loop := Crashed e\<rparr>"

text \<open>
  Lines 213 to 252. The asynchronous function starts at once and calls the binding before
  its first \<open>await\<close>; the rest of it is a task in flight, and the loop goes on.
\<close>

definition bindingCalled :: "target_message \<Rightarrow> chrome \<Rightarrow> chrome" where
  "bindingCalled res s =
     (case res_params res of
        None \<Rightarrow> crash (TypeError ''params is undefined'') s
      | Some bc \<Rightarrow>
          (case bindings s (bc_name bc) of
             None \<Rightarrow> s
           | Some binding \<Rightarrow>
               s\<lparr>invoked := invoked s @ [(bc_name bc, pl_args (bc_payload bc))],
                 tasks := tasks s @
                   [\<lparr>t_outcome = binding (pl_args (bc_payload bc)),
                     t_name = pl_name (bc_payload bc), t_seq = pl_seq (bc_payload bc),
                     t_context = bc_id bc\<rparr>]\<rparr>))"

text \<open>Lines 254 to 272.\<close>

definition correlate :: "(json \<Rightarrow> string) \<Rightarrow> target_message \<Rightarrow> chrome \<Rightarrow> chrome" where
  "correlate stringify res s =
     (case res_id res of
        None \<Rightarrow> s
      | Some k \<Rightarrow>
          (case pending s k of
             None \<Rightarrow> s
           | Some resc \<Rightarrow>
               (case settlement_of stringify res of
                  Inl e \<Rightarrow> crash e (s\<lparr>pending := (pending s)(k := None)\<rparr>)
                | Inr v \<Rightarrow> settle resc v (s\<lparr>pending := (pending s)(k := None)\<rparr>))))"

text \<open>
  What line 210 or line 211 throws when the text does not give a message: \<open>JSON.parse\<close>
  throws a SyntaxError, except for the text \<open>null\<close> (with white space around it or not),
  whose parsed value throws a TypeError at the first field read on line 211.
\<close>

definition json_space :: "char \<Rightarrow> bool" where
  "json_space c = (c = CHR '' '' \<or> c = CHR 0x09 \<or> c = CHR 0x0A \<or> c = CHR 0x0D)"

definition null_text :: "string \<Rightarrow> bool" where
  "null_text txt = (rev (dropWhile json_space (rev (dropWhile json_space txt))) = ''null'')"

definition parse_failure :: "string \<Rightarrow> js_error" where
  "parse_failure txt = (if null_text txt then TypeError ''res is null'' else SyntaxError txt)"

text \<open>
  Lines 204 to 272: a message forwarded from a target. \<open>parse\<close> gives \<open>None\<close> for a text
  that does not give a message. Only the binding branch ends with \<open>continue\<close> (line 251):
  a message that has been logged on line 212 goes on to the lookup of line 254 like a
  response.
\<close>

definition receivedMessageFromTarget ::
  "(string \<Rightarrow> target_message option) \<Rightarrow> (json \<Rightarrow> string) \<Rightarrow> incoming \<Rightarrow> chrome \<Rightarrow> chrome" where
  "receivedMessageFromTarget parse stringify m s =
     (case m_params m of
        None \<Rightarrow> crash (TypeError ''params is undefined'') s
      | Some params \<Rightarrow>
          if p_sessionId params \<noteq> session s then s
          else
            (case p_message params of
               None \<Rightarrow> crash (SyntaxError ''undefined is not valid JSON'') s
             | Some txt \<Rightarrow>
                 (case parse txt of
                    None \<Rightarrow> crash (parse_failure txt) s
                  | Some res \<Rightarrow>
                      if res_id res = Some 0 \<and> res_method res = Some ''Runtime.consoleAPICalled''
                         \<or> res_method res = Some ''Runtime.exceptionThrown''
                      then correlate stringify res (log_message txt s)
                      else if res_id res = Some 0 \<and> res_method res = Some ''Runtime.bindingCalled''
                      then bindingCalled res s
                      else correlate stringify res s)))"

text \<open>Lines 273 to 282.\<close>

definition targetDestroyed :: "incoming \<Rightarrow> chrome \<Rightarrow> chrome" where
  "targetDestroyed m s =
     (case m_params m of
        None \<Rightarrow> crash (TypeError ''params is undefined'') s
      | Some params \<Rightarrow>
          if p_targetId params = target s then (exit s)\<lparr>loop := Stopped\<rparr> else s)"

text \<open>
  Lines 170 to 283, the body of the loop, given what \<open>receive\<close> produced. When \<open>receive\<close>
  throws, the error is logged and the loop is left if the transport is closed; if it is
  not, control goes on to line 180 with \<open>m\<close> unassigned, and reading \<open>m.method\<close> throws.
\<close>

definition body ::
  "(string \<Rightarrow> target_message option) \<Rightarrow> (json \<Rightarrow> string) \<Rightarrow> recv \<Rightarrow> chrome \<Rightarrow> chrome" where
  "body parse stringify r s =
     (case r of
        Failure err closes \<Rightarrow>
          (case s\<lparr>transport_closed := closes, logged := logged s @ [Error err]\<rparr> of
             s1 \<Rightarrow> if transport_closed s1 then s1\<lparr>loop := Stopped\<rparr>
                   else crash (TypeError ''m is undefined'') s1)
      | Message m \<Rightarrow>
          if m_method m = Some ''Target.receivedMessageFromTarget''
          then receivedMessageFromTarget parse stringify m s
          else if m_method m = Some ''Target.targetDestroyed''
          then targetDestroyed m s
          else s)"

text \<open>
  Line 169, the condition of the loop: a loop that is still running ends when the
  transport is closed.
\<close>

definition guard :: "chrome \<Rightarrow> chrome" where
  "guard s = (if loop s = Running \<and> transport_closed s then s\<lparr>loop := Stopped\<rparr> else s)"

text \<open>One turn of the loop; nothing happens once the loop is over.\<close>

definition iteration ::
  "(string \<Rightarrow> target_message option) \<Rightarrow> (json \<Rightarrow> string) \<Rightarrow> recv \<Rightarrow> chrome \<Rightarrow> chrome" where
  "iteration parse stringify r s =
     (if loop (guard s) = Running then body parse stringify r (guard s) else guard s)"

text \<open>
  Lines 168 to 284 on the list of what the transport delivers. When the list has run out
  and the transport is open, the loop waits in \<open>receive\<close>.
\<close>

fun readLoop ::
  "(string \<Rightarrow> target_message option) \<Rightarrow> (json \<Rightarrow> string) \<Rightarrow> recv list \<Rightarrow> chrome \<Rightarrow> chrome" where
  "readLoop parse stringify [] s = guard s"
| "readLoop parse stringify (r # rs) s = readLoop parse stringify rs (iteration parse stringify r s)"

text \<open>
  The message \<open>m\<close> is an envelope from the attached session around the text \<open>txt\<close>
  (lines 180 and 206).
\<close>

definition from_attached :: "chrome \<Rightarrow> incoming \<Rightarrow> string \<Rightarrow> bool" where
  "from_attached s m txt =
     (m_method m = Some ''Target.receivedMessageFromTarget'' \<and>
      (case m_params m of
         None \<Rightarrow> False
       | Some params \<Rightarrow> p_sessionId params = session s \<and> p_message params = Some txt))"

text \<open>
  The text \<open>txt\<close> is a response to request \<open>k\<close>: a message with that id and without a
  method, for which lines 261 to 272 settle the promise with \<open>v\<close>.
\<close>

definition answers ::
  "(string \<Rightarrow> target_message option) \<Rightarrow> (json \<Rightarrow> string) \<Rightarrow> string \<Rightarrow> int \<Rightarrow> settlement \<Rightarrow> bool" where
  "answers parse stringify txt k v =
     (case parse txt of
        None \<Rightarrow> False
      | Some res \<Rightarrow>
          res_id res = Some k \<and> res_method res = None \<and> settlement_of stringify res = Inr v)"

text \<open>A target message in its envelope, as the transport delivers it.\<close>

definition enveloped :: "string option \<Rightarrow> string \<Rightarrow> incoming" where
  "enveloped sid txt =
     \<lparr>m_id = None, m_method = Some ''Target.receivedMessageFromTarget'',
      m_params = Some \<lparr>p_sessionId = sid, p_message = Some txt, p_targetId = None,
                        p_targetInfo = None\<rparr>,
      m_error = None, m_result = None\<rparr>"

definition envelope :: "string option \<Rightarrow> string \<Rightarrow> recv" where
  "envelope sid txt = Message (enveloped sid txt)"

text \<open>
  The promises allocated so far are those below \<open>next_promise\<close>: no promise beyond is
  settled, and the correlation table holds allocated promises only. A promise in the table
  is not settled, and it is there under one id.
\<close>

definition store_inv :: "chrome \<Rightarrow> bool" where
  "store_inv s =
     ((\<forall>h. next_promise s \<le> h \<longrightarrow> promises s h = None) \<and>
      (\<forall>k h. pending s k = Some h \<longrightarrow> h < next_promise s \<and> promises s h = None) \<and>
      (\<forall>k k' h. pending s k = Some h \<and> pending s k' = Some h \<longrightarrow> k = k'))"

subsection \<open>A concrete run\<close>

text \<open>
  What \<open>createChrome\<close> does first (lines 337 to 341): a new client finds the page target
  \<open>T1\<close> and attaches to it, and the browser answers with the session id \<open>S1\<close>.
\<close>

definition targetCreated_T1 :: recv where
  "targetCreated_T1 =
     Message \<lparr>m_id = None, m_method = Some ''Target.targetCreated'',
              m_params = Some \<lparr>p_sessionId = None, p_message = None, p_targetId = None,
                                p_targetInfo = Some \<lparr>ti_type = ''page'', ti_targetId = ''T1''\<rparr>\<rparr>,
              m_error = None, m_result = None\<rparr>"

definition attached_S1 :: recv where
  "attached_S1 =
     Message \<lparr>m_id = Some 1, m_method = None, m_params = None, m_error = None,
              m_result = Some \<lparr>r_sessionId = Some ''S1''\<rparr>\<rparr>"

definition bootstrapped :: chrome where
  "bootstrapped =
     snd (startSession ''T1'' [attached_S1] (snd (findTarget [targetCreated_T1] new_chrome)))"

text \<open>The browser reports that a target is gone; for the attached client, \<open>T1\<close>.\<close>

definition destroyed :: "string \<Rightarrow> incoming" where
  "destroyed targetId =
     \<lparr>m_id = None, m_method = Some ''Target.targetDestroyed'',
      m_params = Some \<lparr>p_sessionId = None, p_message = None, p_targetId = Some targetId,
                        p_targetInfo = None\<rparr>,
      m_error = None, m_result = None\<rparr>"

definition targetDestroyed_T1 :: recv where
  "targetDestroyed_T1 = Message (destroyed ''T1'')"


text \<open>
  \<open>JSON.stringify\<close> on values whose strings need no escaping, and \<open>JSON.parse\<close> on the
  texts of the messages below: the runtime of the concrete runs.
\<close>

fun commas :: "string list \<Rightarrow> string" where
  "commas [] = []"
| "commas [x] = x"
| "commas (x # y # zs) = x @ '','' @ commas (y # zs)"

definition dq :: "string \<Rightarrow> string" where
  "dq s = CHR 0x22 # s @ [CHR 0x22]"

fun stringify_plain :: "json \<Rightarrow> string" where
  "stringify_plain JNull = ''null''"
| "stringify_plain (JBool b) = (if b then ''true'' else ''false'')"
| "stringify_plain (JNum i) = fmt_d i"
| "stringify_plain (JStr s) = dq s"
| "stringify_plain (JArr vs) = ''['' @ commas (map stringify_plain vs) @ '']''"
| "stringify_plain (JObj kvs) =
     ''{'' @ commas (map (\<lambda>(k, v). dq k @ '':'' @ stringify_plain v) kvs) @ ''}''"

text \<open>A console event and an exception event as the browser sends them, without an id.\<close>

definition text_console :: string where
  "text_console = stringify_plain (JObj [(''method'', JStr ''Runtime.consoleAPICalled'')])"

definition msg_console :: target_message where
  "msg_console =
     \<lparr>res_id = None, res_method = Some ''Runtime.consoleAPICalled'', res_params = None,
      res_error = None, res_result = None\<rparr>"

definition text_exception :: string where
  "text_exception = stringify_plain (JObj [(''method'', JStr ''Runtime.exceptionThrown'')])"

definition msg_exception :: target_message where
  "msg_exception =
     \<lparr>res_id = None, res_method = Some ''Runtime.exceptionThrown'', res_params = None,
      res_error = None, res_result = None\<rparr>"

text \<open>A console event with the id 0.\<close>

definition text_console0 :: string where
  "text_console0 =
     stringify_plain (JObj [(''id'', JNum 0), (''method'', JStr ''Runtime.consoleAPICalled'')])"

definition msg_console0 :: target_message where
  "msg_console0 = msg_console\<lparr>res_id := Some 0\<rparr>"

text \<open>
  The page calls the binding \<open>greet\<close> with one argument from execution context 7, as call
  number 3: the event without an id, and the same event with the id 0.
\<close>

definition greet_params :: json where
  "greet_params =
     JObj [(''id'', JNum 7), (''name'', JStr ''greet''),
           (''payload'', JObj [(''name'', JStr ''greet''), (''seq'', JNum 3),
                               (''args'', JArr [JStr ''Deno''])])]"

definition greet_called :: binding_called where
  "greet_called =
     \<lparr>bc_id = 7, bc_name = ''greet'',
      bc_payload = \<lparr>pl_name = ''greet'', pl_seq = 3, pl_args = [JStr ''Deno'']\<rparr>\<rparr>"

definition text_binding :: string where
  "text_binding =
     stringify_plain (JObj [(''method'', JStr ''Runtime.bindingCalled''), (''params'', greet_params)])"

definition msg_binding :: target_message where
  "msg_binding =
     \<lparr>res_id = None, res_method = Some ''Runtime.bindingCalled'', res_params = Some greet_called,
      res_error = None, res_result = None\<rparr>"

definition text_binding0 :: string where
  "text_binding0 =
     stringify_plain (JObj [(''id'', JNum 0), (''method'', JStr ''Runtime.bindingCalled''),
                            (''params'', greet_params)])"

definition msg_binding0 :: target_message where
  "msg_binding0 = msg_binding\<lparr>res_id := Some 0\<rparr>"

text \<open>Responses to request \<open>k\<close>: the number \<open>10 * k\<close> as the value of the evaluation.\<close>

definition text_value :: "int \<Rightarrow> string" where
  "text_value k =
     stringify_plain
       (JObj [(''id'', JNum k),
              (''result'', JObj [(''result'', JObj [(''type'', JStr ''number''),
                                                    (''value'', JNum (10 * k))])])])"

definition msg_value :: "int \<Rightarrow> target_message" where
  "msg_value k =
     \<lparr>res_id = Some k, res_method = None, res_params = None, res_error = None,
      res_result =
        Some \<lparr>res_inner = Some \<lparr>ro_description = None, ro_type = Some ''number'',
                                 ro_subtype = None, ro_value = Some (JNum (10 * k))\<rparr>,
              res_exceptionDetails = None\<rparr>\<rparr>"

text \<open>What the promise of request \<open>k\<close> is settled with by that response.\<close>

definition value_settlement :: "int \<Rightarrow> settlement" where
  "value_settlement k = Resolved (Serialized (Some (fmt_d (10 * k))))"

text \<open>Two calls, in the order in which they are made.\<close>

definition two_calls :: "(string \<times> json) list" where
  "two_calls =
     [(''Runtime.evaluate'', JObj [(''expression'', JStr ''document.title'')]),
      (''Page.reload'', JObj [])]"

text \<open>A response to request 1 with a protocol error that has a message.\<close>

definition text_error :: string where
  "text_error =
     stringify_plain
       (JObj [(''id'', JNum 1), (''error'', JObj [(''message'', JStr ''Cannot find context'')])])"

definition msg_error :: target_message where
  "msg_error =
     \<lparr>res_id = Some 1, res_method = None, res_params = None,
      res_error = Some \<lparr>e_message = Some ''Cannot find context''\<rparr>, res_result = None\<rparr>"

text \<open>A response to request 1 with an error field that has no message, and a result.\<close>

definition text_error_bare :: string where
  "text_error_bare =
     stringify_plain
       (JObj [(''id'', JNum 1), (''error'', JObj []),
              (''result'', JObj [(''result'', JObj [(''type'', JStr ''string''),
                                                    (''value'', JStr ''ok'')])])])"

definition msg_error_bare :: target_message where
  "msg_error_bare =
     \<lparr>res_id = Some 1, res_method = None, res_params = None,
      res_error = Some \<lparr>e_message = None\<rparr>,
      res_result =
        Some \<lparr>res_inner = Some \<lparr>ro_description = None, ro_type = Some ''string'',
                                 ro_subtype = None, ro_value = Some (JStr ''ok'')\<rparr>,
              res_exceptionDetails = None\<rparr>\<rparr>"

definition parse_table :: "string \<Rightarrow> target_message option" where
  "parse_table txt =
     (if txt = text_console then Some msg_console
      else if txt = text_exception then Some msg_exception
      else if txt = text_console0 then Some msg_console0
      else if txt = text_binding then Some msg_binding
      else if txt = text_binding0 then Some msg_binding0
      else if txt = text_value 1 then Some (msg_value 1)
      else if txt = text_value 2 then Some (msg_value 2)
      else if txt = text_error then Some msg_error
      else if txt = text_error_bare then Some msg_error_bare
      else None)"

text \<open>
  A host function for the page, and the attached client with it in the registry. No method
  of the class writes the registry (\<open>#bindings\<close> occurs on lines 59 and 224 only); the
  state shows what the loop does with a registry that has an entry.
\<close>

definition greet :: binding where
  "greet args =
     (case args of
        [JStr name] \<Rightarrow> Returns (JStr (''Hello, '' @ name @ ''!''))
      | _ \<Rightarrow> Throws ''greet needs a name'')"

definition with_greet :: chrome where
  "with_greet = bootstrapped\<lparr>bindings := [''greet'' \<mapsto> greet]\<rparr>"

section \<open>Properties\<close>

subsection \<open>Sending\<close>

lemmas send_defs = sendMessageToTarget_def sendMessage_def transport_send_def deferred_def nextId_def

lemma sendMessage_open:
  "\<not> transport_closed s \<Longrightarrow>
     sendMessage k method args s =
       (Inr (next_promise s),
        s\<lparr>outbox := outbox s @ [\<lparr>o_id = k, o_method = method, o_args = args\<rparr>],
          next_promise := Suc (next_promise s),
          pending := (pending s)(k \<mapsto> next_promise s)\<rparr>)"
  by (simp add: sendMessage_def transport_send_def deferred_def)

lemma sendMessage_closed:
  "transport_closed s \<Longrightarrow> sendMessage k method args s = (Inl (TransportError ''closed''), s)"
  by (simp add: sendMessage_def transport_send_def)

lemma sendMessageToTarget_ok:
  assumes "truthy (session s)" and "\<not> transport_closed s"
  shows "sendMessageToTarget method args s =
           (Inr (next_promise s),
            s\<lparr>lastId := lastId s + 1,
              outbox := outbox s @
                [\<lparr>o_id = lastId s + 1, o_method = ''Target.sendMessageToTarget'',
                  o_args = ToTarget \<lparr>i_id = lastId s + 1, i_method = method, i_params = args\<rparr>
                             (case session s of Some sid \<Rightarrow> sid | None \<Rightarrow> [])\<rparr>],
              next_promise := Suc (next_promise s),
              pending := (pending s)(lastId s + 1 \<mapsto> next_promise s)\<rparr>)"
  using assms by (simp add: send_defs)

text \<open>A series of calls on an attached client with an open transport.\<close>

lemma issue_keeps:
  assumes "truthy (session s)" and "\<not> transport_closed s"
  shows "promises (snd (issue reqs s)) = promises s \<and> loop (snd (issue reqs s)) = loop s \<and>
         \<not> transport_closed (snd (issue reqs s)) \<and> session (snd (issue reqs s)) = session s \<and>
         length (fst (issue reqs s)) = length reqs \<and>
         (\<forall>k. k \<le> lastId s \<longrightarrow> pending (snd (issue reqs s)) k = pending s k)"
  using assms
proof (induction reqs arbitrary: s)
  case Nil
  then show ?case by simp
next
  case (Cons req reqs)
  obtain meth a where req: "req = (meth, a)" by (cases req)
  let ?s1 = "snd (sendMessageToTarget meth a s)"
  have pre: "truthy (session ?s1)" "\<not> transport_closed ?s1"
    using Cons.prems by (simp_all add: sendMessageToTarget_ok)
  have facts: "promises ?s1 = promises s" "loop ?s1 = loop s" "session ?s1 = session s"
    "lastId ?s1 = lastId s + 1" "\<And>k. k \<le> lastId s \<Longrightarrow> pending ?s1 k = pending s k"
    using Cons.prems by (simp_all add: sendMessageToTarget_ok)
  have step: "issue (req # reqs) s = (Inr (next_promise s) # fst (issue reqs ?s1), snd (issue reqs ?s1))"
    using Cons.prems by (simp add: req sendMessageToTarget_ok split: prod.splits)
  from Cons.IH [OF pre] show ?case
    unfolding step by (simp add: facts)
qed

text \<open>The \<open>j\<close>-th call draws the id \<open>lastId + 1 + j\<close> and gets the \<open>j\<close>-th new promise.\<close>

lemma issue_assigns:
  assumes "truthy (session s)" and "\<not> transport_closed s" and "j < length reqs"
  shows "fst (issue reqs s) ! j = Inr (next_promise s + j) \<and>
         pending (snd (issue reqs s)) (lastId s + 1 + int j) = Some (next_promise s + j)"
  using assms
proof (induction reqs arbitrary: s j)
  case Nil
  then show ?case by simp
next
  case (Cons req reqs)
  obtain meth a where req: "req = (meth, a)" by (cases req)
  let ?s1 = "snd (sendMessageToTarget meth a s)"
  have pre: "truthy (session ?s1)" "\<not> transport_closed ?s1"
    using Cons.prems by (simp_all add: sendMessageToTarget_ok)
  have facts: "lastId ?s1 = lastId s + 1" "next_promise ?s1 = Suc (next_promise s)"
    "pending ?s1 (lastId s + 1) = Some (next_promise s)"
    using Cons.prems by (simp_all add: sendMessageToTarget_ok)
  have step: "issue (req # reqs) s = (Inr (next_promise s) # fst (issue reqs ?s1), snd (issue reqs ?s1))"
    using Cons.prems by (simp add: req sendMessageToTarget_ok split: prod.splits)
  show ?case
  proof (cases j)
    case 0
    have "pending (snd (issue reqs ?s1)) (lastId s + 1) = pending ?s1 (lastId s + 1)"
      using issue_keeps [OF pre, of reqs] by (simp add: facts)
    then show ?thesis
      unfolding step by (simp add: 0 facts)
  next
    case (Suc i)
    then have "i < length reqs" using Cons.prems by simp
    from Cons.IH [OF pre this] show ?thesis
      unfolding step by (simp add: Suc facts add.commute add.left_commute)
  qed
qed

text \<open>The ids of the envelopes of a series of calls count up from \<open>lastId + 1\<close>.\<close>

lemma issue_ids:
  assumes "truthy (session s)" and "\<not> transport_closed s"
  shows "map o_id (outbox (snd (issue reqs s)))
           = map o_id (outbox s) @ map (\<lambda>j. lastId s + 1 + int j) [0..<length reqs]"
  using assms
proof (induction reqs arbitrary: s)
  case Nil
  then show ?case by simp
next
  case (Cons req reqs)
  obtain meth a where req: "req = (meth, a)" by (cases req)
  let ?s1 = "snd (sendMessageToTarget meth a s)"
  have pre: "truthy (session ?s1)" "\<not> transport_closed ?s1"
    using Cons.prems by (simp_all add: sendMessageToTarget_ok)
  have facts: "lastId ?s1 = lastId s + 1"
    "map o_id (outbox ?s1) = map o_id (outbox s) @ [lastId s + 1]"
    using Cons.prems by (simp_all add: sendMessageToTarget_ok)
  have step: "snd (issue (req # reqs) s) = snd (issue reqs ?s1)"
    by (simp add: req split: prod.splits)
  have shift: "map (\<lambda>j. lastId s + 1 + int j) [0..<Suc (length reqs)]
                 = (lastId s + 1) # map (\<lambda>j. lastId s + 1 + 1 + int j) [0..<length reqs]"
    by (simp add: upt_conv_Cons map_Suc_upt [symmetric] add.assoc add.commute del: upt_Suc)
  from Cons.IH [OF pre] show ?case
    unfolding step by (simp add: facts shift del: upt_Suc)
qed

subsection \<open>The read loop\<close>

lemma iteration_running:
  "loop s = Running \<Longrightarrow> \<not> transport_closed s \<Longrightarrow>
     iteration parse stringify r s = body parse stringify r s"
  by (simp add: iteration_def guard_def)

lemma iteration_over: "loop s \<noteq> Running \<Longrightarrow> iteration parse stringify r s = s"
  by (simp add: iteration_def guard_def)

lemma readLoop_over: "loop s \<noteq> Running \<Longrightarrow> readLoop parse stringify rs s = s"
  by (induction rs) (simp_all add: guard_def iteration_over)

lemma body_failure:
  "body parse stringify (Failure err closes) s =
     (if closes
      then s\<lparr>transport_closed := True, logged := logged s @ [Error err], loop := Stopped\<rparr>
      else s\<lparr>transport_closed := False, logged := logged s @ [Error err],
             loop := Crashed (TypeError ''m is undefined'')\<rparr>)"
  by (simp add: body_def crash_def)

lemma from_attached_enveloped: "from_attached s (enveloped (session s) txt) txt"
  by (simp add: from_attached_def enveloped_def)

text \<open>
  The three ways of a target message from the attached session (lines 211 to 254); the
  first of them logs the message and then treats it like the third.
\<close>

lemma iteration_attached:
  assumes "loop s = Running" and "\<not> transport_closed s"
    and "from_attached s m txt" and "parse txt = Some res"
  shows "iteration parse stringify (Message m) s =
           (if res_id res = Some 0 \<and> res_method res = Some ''Runtime.consoleAPICalled''
               \<or> res_method res = Some ''Runtime.exceptionThrown''
            then correlate stringify res (log_message txt s)
            else if res_id res = Some 0 \<and> res_method res = Some ''Runtime.bindingCalled''
            then bindingCalled res s
            else correlate stringify res s)"
  using assms
  by (auto simp add: iteration_running body_def receivedMessageFromTarget_def from_attached_def
      split: option.splits)

text \<open>A response to request \<open>k\<close> settles the promise stored under \<open>k\<close> and removes it.\<close>

lemma iteration_answer:
  assumes "loop t = Running" and "\<not> transport_closed t" and "answers parse stringify txt k v"
  shows "iteration parse stringify (envelope (session t) txt) t =
           (case pending t k of
              None \<Rightarrow> t
            | Some h \<Rightarrow> settle h v (t\<lparr>pending := (pending t)(k := None)\<rparr>))"
proof -
  obtain res where res: "parse txt = Some res" "res_id res = Some k" "res_method res = None"
    "settlement_of stringify res = Inr v"
    using assms(3) by (auto simp add: answers_def split: option.splits)
  show ?thesis
    using iteration_attached [of t "enveloped (session t) txt" "txt" parse res stringify]
      assms(1,2) from_attached_enveloped [of t "txt"] res
    by (simp add: envelope_def correlate_def split: option.splits)
qed

lemma iteration_answer_keeps:
  assumes "loop t = Running" and "\<not> transport_closed t" and "answers parse stringify txt k v"
  shows "loop (iteration parse stringify (envelope (session t) txt) t) = Running"
    and "\<not> transport_closed (iteration parse stringify (envelope (session t) txt) t)"
    and "session (iteration parse stringify (envelope (session t) txt) t) = session t"
    and "pending (iteration parse stringify (envelope (session t) txt) t) = (pending t)(k := None)"
    and "\<And>h. pending t k = Some h \<Longrightarrow> promises t h = None \<Longrightarrow>
           promises (iteration parse stringify (envelope (session t) txt) t) = (promises t)(h \<mapsto> v)"
    and "pending t k = None \<Longrightarrow>
           promises (iteration parse stringify (envelope (session t) txt) t) = promises t"
  using assms(1,2)
  by (auto simp add: iteration_answer [OF assms] settle_def split: option.splits)

lemma readLoop_answers:
  assumes "loop t = Running" and "\<not> transport_closed t" and "distinct ks"
    and "\<forall>k\<in>set ks. answers parse stringify (txt k) k (v k)"
    and "\<forall>k\<in>set ks. \<forall>k'\<in>set ks. \<forall>h. pending t k = Some h \<and> pending t k' = Some h \<longrightarrow> k = k'"
    and "\<forall>k\<in>set ks. \<forall>h. pending t k = Some h \<longrightarrow> promises t h = None"
  shows "(\<forall>k\<in>set ks. \<forall>h. pending t k = Some h \<longrightarrow>
            promises (readLoop parse stringify (map (\<lambda>k. envelope (session t) (txt k)) ks) t) h
              = Some (v k)) \<and>
         (\<forall>x. (\<forall>k\<in>set ks. pending t k \<noteq> Some x) \<longrightarrow>
            promises (readLoop parse stringify (map (\<lambda>k. envelope (session t) (txt k)) ks) t) x
              = promises t x)"
  using assms
proof (induction ks arbitrary: t)
  case Nil
  then show ?case by (simp add: guard_def)
next
  case (Cons k0 ks)
  let ?t1 = "iteration parse stringify (envelope (session t) (txt k0)) t"
  let ?fin = "readLoop parse stringify (map (\<lambda>k. envelope (session ?t1) (txt k)) ks) ?t1"
  have ans: "answers parse stringify (txt k0) k0 (v k0)"
    using Cons.prems(4) by simp
  note keeps = iteration_answer_keeps [OF Cons.prems(1,2) ans]
  have fin: "readLoop parse stringify (map (\<lambda>k. envelope (session t) (txt k)) (k0 # ks)) t = ?fin"
    by (simp add: keeps(3))
  have notin: "k0 \<notin> set ks" and dist: "distinct ks"
    using Cons.prems(3) by simp_all
  have pend1: "\<And>k. k \<in> set ks \<Longrightarrow> pending ?t1 k = pending t k"
    using notin by (auto simp add: keeps(4))
  have inj1: "\<forall>k\<in>set ks. \<forall>k'\<in>set ks. \<forall>h. pending ?t1 k = Some h \<and> pending ?t1 k' = Some h \<longrightarrow> k = k'"
    using Cons.prems(5) by (simp add: pend1)
  have other: "\<And>k h. k \<in> set ks \<Longrightarrow> pending t k = Some h \<Longrightarrow> pending t k0 \<noteq> Some h"
    using Cons.prems(5) notin by auto
  have prom1: "\<And>x. pending t k0 \<noteq> Some x \<Longrightarrow> promises ?t1 x = promises t x"
  proof -
    fix x assume x: "pending t k0 \<noteq> Some x"
    show "promises ?t1 x = promises t x"
    proof (cases "pending t k0")
      case None
      then show ?thesis by (simp add: keeps(6))
    next
      case (Some h0)
      have "promises t h0 = None" using Cons.prems(6) Some by simp
      from keeps(5) [OF Some this] x Some show ?thesis by simp
    qed
  qed
  have unset1: "\<forall>k\<in>set ks. \<forall>h. pending ?t1 k = Some h \<longrightarrow> promises ?t1 h = None"
  proof (intro ballI allI impI)
    fix k h assume k: "k \<in> set ks" and h: "pending ?t1 k = Some h"
    have ph: "pending t k = Some h" using k h by (simp add: pend1)
    have "promises ?t1 h = promises t h" using other [OF k ph] by (rule prom1)
    also have "\<dots> = None" using Cons.prems(6) k ph by simp
    finally show "promises ?t1 h = None" .
  qed
  have ans1: "\<forall>k\<in>set ks. answers parse stringify (txt k) k (v k)"
    using Cons.prems(4) by simp
  note IH = Cons.IH [OF keeps(1) keeps(2) dist ans1 inj1 unset1]
  show ?case
    unfolding fin
  proof (intro conjI ballI allI impI)
    fix k h assume k: "k \<in> set (k0 # ks)" and h: "pending t k = Some h"
    show "promises ?fin h = Some (v k)"
    proof (cases "k = k0")
      case True
      have none: "\<forall>k'\<in>set ks. pending ?t1 k' \<noteq> Some h"
        using other h True by (auto simp add: pend1)
      have "promises ?fin h = promises ?t1 h"
        using IH none by blast
      also have "\<dots> = Some (v k0)"
      proof -
        have "promises t h = None" using Cons.prems(6) h True by simp
        from keeps(5) [OF h [unfolded True] this] show ?thesis by simp
      qed
      finally show ?thesis using True by simp
    next
      case False
      then have "k \<in> set ks" using k by simp
      moreover have "pending ?t1 k = Some h" using \<open>k \<in> set ks\<close> h by (simp add: pend1)
      ultimately show ?thesis using IH by blast
    qed
  next
    fix x assume x: "\<forall>k\<in>set (k0 # ks). pending t k \<noteq> Some x"
    have "\<forall>k\<in>set ks. pending ?t1 k \<noteq> Some x"
      using x by (simp add: pend1)
    then have "promises ?fin x = promises ?t1 x"
      using IH by blast
    also have "\<dots> = promises t x"
      using x by (intro prom1) simp
    finally show "promises ?fin x = promises t x" .
  qed
qed


text \<open>
  A message that is logged goes on to the lookup: with an id that has an entry, the entry
  is removed and the promise is settled from the message, or the reading of its result
  throws.
\<close>

lemma logged_message_goes_on:
  assumes "loop s = Running" and "\<not> transport_closed s"
    and "from_attached s m txt" and "parse txt = Some res"
    and "res_method res = Some ''Runtime.exceptionThrown'' \<or>
         res_id res = Some 0 \<and> res_method res = Some ''Runtime.consoleAPICalled''"
  shows "iteration parse stringify (Message m) s = correlate stringify res (log_message txt s)"
  using assms iteration_attached [of s m "txt" parse res stringify] by auto

text \<open>No method writes the registry of bindings.\<close>

lemma bindings_kept:
  "bindings (snd (sendMessage k method args s)) = bindings s"
  "bindings (snd (sendMessageToTarget method' args' s)) = bindings s"
  "bindings (finish_task stringify i s) = bindings s"
  "bindings (iteration parse stringify r s) = bindings s"
proof -
  show send: "\<And>k method args s. bindings (snd (sendMessage k method args s)) = bindings s"
    by (simp add: sendMessage_def transport_send_def deferred_def)
  show target: "\<And>method' args' s. bindings (snd (sendMessageToTarget method' args' s)) = bindings s"
    by (simp add: sendMessageToTarget_def nextId_def send split: prod.splits)
  show "bindings (finish_task stringify i s) = bindings s"
    by (simp add: finish_task_def task_followup_def target)
  have corr: "\<And>res t. bindings (correlate stringify res t) = bindings t"
    by (simp add: correlate_def settle_def crash_def split: option.splits sum.splits)
  have body: "\<And>t. bindings (body parse stringify r t) = bindings t"
    by (simp add: body_def receivedMessageFromTarget_def targetDestroyed_def bindingCalled_def
        log_message_def crash_def exit_def corr split: recv.splits option.splits)
  show "bindings (iteration parse stringify r s) = bindings s"
    by (simp add: iteration_def guard_def body)
qed

subsection \<open>The store of promises\<close>

text \<open>\<open>store_inv\<close> holds for a new client and is kept by every operation.\<close>

lemma store_inv_new: "store_inv new_chrome"
  by (simp add: store_inv_def new_chrome_def)

lemma store_inv_sendMessage: "store_inv s \<Longrightarrow> store_inv (snd (sendMessage k method args s))"
proof (cases "transport_closed s")
  case True
  assume "store_inv s"
  then show ?thesis using True by (simp add: sendMessage_closed)
next
  case False
  assume inv: "store_inv s"
  have old: "\<And>j h. pending s j = Some h \<Longrightarrow> h < next_promise s \<and> promises s h = None"
    using inv by (simp add: store_inv_def)
  have inj: "\<And>j j' h. pending s j = Some h \<Longrightarrow> pending s j' = Some h \<Longrightarrow> j = j'"
    using inv by (auto simp add: store_inv_def)
  have beyond: "\<And>h. next_promise s \<le> h \<Longrightarrow> promises s h = None"
    using inv by (simp add: store_inv_def)
  show ?thesis
    unfolding store_inv_def
  proof (intro conjI allI impI)
    fix h assume "next_promise (snd (sendMessage k method args s)) \<le> h"
    then show "promises (snd (sendMessage k method args s)) h = None"
      using False beyond by (simp add: sendMessage_open)
  next
    fix j h assume "pending (snd (sendMessage k method args s)) j = Some h"
    then show "h < next_promise (snd (sendMessage k method args s))"
      using False old [of j h] by (auto simp add: sendMessage_open less_Suc_eq split: if_splits)
  next
    fix j h assume "pending (snd (sendMessage k method args s)) j = Some h"
    then show "promises (snd (sendMessage k method args s)) h = None"
      using False old [of j h] beyond [of h] by (auto simp add: sendMessage_open split: if_splits)
  next
    fix j j' h
    assume "pending (snd (sendMessage k method args s)) j = Some h \<and>
            pending (snd (sendMessage k method args s)) j' = Some h"
    then show "j = j'"
      using False old [of j h] old [of j' h] inj [of j h j']
      by (auto simp add: sendMessage_open split: if_splits)
  qed
qed

lemma store_inv_sendMessageToTarget:
  "store_inv s \<Longrightarrow> store_inv (snd (sendMessageToTarget method args s))"
proof -
  assume inv: "store_inv s"
  have "store_inv (s\<lparr>lastId := lastId s + 1\<rparr>)"
    using inv by (simp add: store_inv_def)
  from store_inv_sendMessage [OF this] inv show ?thesis
    by (simp add: sendMessageToTarget_def nextId_def)
qed

lemma store_inv_finish_task: "store_inv s \<Longrightarrow> store_inv (finish_task stringify i s)"
proof -
  assume inv: "store_inv s"
  have "store_inv (s\<lparr>tasks := take i (tasks s) @ drop (Suc i) (tasks s)\<rparr>)"
    using inv by (simp add: store_inv_def)
  from store_inv_sendMessageToTarget [OF this] inv show ?thesis
    by (simp add: finish_task_def task_followup_def)
qed

lemma store_inv_correlate: "store_inv s \<Longrightarrow> store_inv (correlate stringify res s)"
proof -
  assume inv: "store_inv s"
  have removed: "\<And>k. store_inv (s\<lparr>pending := (pending s)(k := None)\<rparr>)"
    using inv unfolding store_inv_def by (auto split: if_splits)
  have settled: "\<And>k h v. pending s k = Some h \<Longrightarrow>
                   store_inv (s\<lparr>pending := (pending s)(k := None), promises := (promises s)(h \<mapsto> v)\<rparr>)"
  proof -
    fix k h v assume kh: "pending s k = Some h"
    have bound: "h < next_promise s" using inv kh by (simp add: store_inv_def)
    have inj: "\<And>j. pending s j = Some h \<Longrightarrow> j = k"
      using inv kh by (auto simp add: store_inv_def)
    show "store_inv (s\<lparr>pending := (pending s)(k := None), promises := (promises s)(h \<mapsto> v)\<rparr>)"
      using inv bound inj unfolding store_inv_def by (auto split: if_splits)
  qed
  show ?thesis
  proof (cases "res_id res")
    case None
    then show ?thesis using inv by (simp add: correlate_def)
  next
    case (Some k)
    show ?thesis
    proof (cases "pending s k")
      case None
      then show ?thesis using inv Some by (simp add: correlate_def)
    next
      case (Some h)
      have unset: "promises s h = None" using inv Some by (simp add: store_inv_def)
      show ?thesis
      proof (cases "settlement_of stringify res")
        case (Inl e)
        have "store_inv (crash e (s\<lparr>pending := (pending s)(k := None)\<rparr>))"
          using removed [of k] by (simp add: store_inv_def crash_def)
        then show ?thesis using \<open>res_id res = Some k\<close> Some Inl by (simp add: correlate_def)
      next
        case (Inr v)
        then show ?thesis
          using \<open>res_id res = Some k\<close> Some unset settled [OF Some, of v]
          by (simp add: correlate_def settle_def)
      qed
    qed
  qed
qed

lemma store_inv_body: "store_inv s \<Longrightarrow> store_inv (body parse stringify r s)"
proof -
  assume inv: "store_inv s"
  have same: "\<And>t. promises t = promises s \<Longrightarrow> pending t = pending s \<Longrightarrow>
                next_promise t = next_promise s \<Longrightarrow> store_inv t"
    using inv by (simp add: store_inv_def)
  show ?thesis
  proof (cases r)
    case (Failure err closes)
    then show ?thesis by (auto intro!: same simp add: body_def crash_def)
  next
    case (Message m)
    have logged: "\<And>tx. store_inv (log_message tx s)"
      using inv by (simp add: store_inv_def log_message_def)
    show ?thesis
      using Message store_inv_correlate [OF inv] store_inv_correlate [OF logged] inv
      by (auto intro!: same
          simp add: body_def receivedMessageFromTarget_def targetDestroyed_def crash_def exit_def
            bindingCalled_def
          split: option.splits)
  qed
qed

lemma store_inv_iteration: "store_inv s \<Longrightarrow> store_inv (iteration parse stringify r s)"
proof -
  assume inv: "store_inv s"
  then have "store_inv (guard s)" by (simp add: store_inv_def guard_def)
  then show ?thesis
    using store_inv_body [of "guard s" parse stringify r] by (simp add: iteration_def)
qed

subsection \<open>The concrete run\<close>

lemma bootstrapped_eq:
  "bootstrapped =
     \<lparr>transport_closed = False,
      outbox = [\<lparr>o_id = 0, o_method = ''Target.setDiscoverTargets'', o_args = Discover\<rparr>,
                \<lparr>o_id = 1, o_method = ''Target.attachToTarget'', o_args = Attach 1 ''T1''\<rparr>],
      stderr_closed = False, process_closed = False, exit_calls = 0, logged = [],
      pending = [0 \<mapsto> 0, 1 \<mapsto> 1], bindings = Map.empty, target = Some ''T1'',
      session = Some ''S1'', lastId = 0, promises = Map.empty, next_promise = 2,
      tasks = [], invoked = [], loop = Running\<rparr>"
  by (simp add: bootstrapped_def startSession_def findTarget_def send_defs new_chrome_def
      targetCreated_T1_def attached_S1_def isTargetCreated_def hasId_def hasError_def)


lemma fmt_d_small:
  "fmt_d 0 = ''0''" "fmt_d 1 = ''1''" "fmt_d 2 = ''2''" "fmt_d 3 = ''3''" "fmt_d 7 = ''7''"
  "fmt_d 10 = ''10''" "fmt_d 20 = ''20''"
  by (simp_all add: fmt_d_def dec_nat.simps)

lemmas text_defs = text_console_def text_exception_def text_console0_def text_binding_def
  text_binding0_def
  text_value_def text_error_def text_error_bare_def greet_params_def dq_def fmt_d_small

lemma parse_table_facts:
  "parse_table text_console = Some msg_console"
  "parse_table text_exception = Some msg_exception"
  "parse_table text_console0 = Some msg_console0"
  "parse_table text_binding = Some msg_binding"
  "parse_table text_binding0 = Some msg_binding0"
  "parse_table (text_value 1) = Some (msg_value 1)"
  "parse_table (text_value 2) = Some (msg_value 2)"
  "parse_table text_error = Some msg_error"
  "parse_table text_error_bare = Some msg_error_bare"
  by (simp_all add: parse_table_def text_defs)

lemma with_greet_facts:
  "loop with_greet = Running" "\<not> transport_closed with_greet" "session with_greet = Some ''S1''"
  "bindings with_greet ''greet'' = Some greet" "tasks with_greet = []" "invoked with_greet = []"
  "lastId with_greet = 0" "outbox with_greet = outbox bootstrapped"
  by (simp_all add: with_greet_def bootstrapped_eq)


lemma bootstrapped_facts:
  "loop bootstrapped = Running" "\<not> transport_closed bootstrapped" "session bootstrapped = Some ''S1''"
  "logged bootstrapped = []"
  by (simp_all add: bootstrapped_eq)

lemma answers_value:
  "answers parse_table stringify_plain (text_value 1) 1 (value_settlement 1)"
  "answers parse_table stringify_plain (text_value 2) 2 (value_settlement 2)"
  by (simp_all add: answers_def parse_table_facts msg_value_def settlement_of_def error_message_def
      exception_value_def value_settlement_def)

lemma store_inv_bootstrapped: "store_inv bootstrapped"
  by (simp add: store_inv_def bootstrapped_eq)

text \<open>
  A console event with the id 0 arrives at the attached client: it is logged, the entry
  that \<open>findTarget\<close> has left under 0 is removed, and the reading of the result that the
  event does not have throws.
\<close>

lemma console_event_with_id_0:
  "logged (iteration parse_table stringify_plain (envelope (Some ''S1'') text_console0) bootstrapped)
     = [Log text_console0] \<and>
   pending bootstrapped 0 = Some 0 \<and>
   pending (iteration parse_table stringify_plain (envelope (Some ''S1'') text_console0) bootstrapped) 0
     = None \<and>
   loop (iteration parse_table stringify_plain (envelope (Some ''S1'') text_console0) bootstrapped)
     = Crashed (TypeError ''result is undefined'')"
proof -
  have step: "iteration parse_table stringify_plain (Message (enveloped (Some ''S1'') text_console0))
                bootstrapped
              = correlate stringify_plain msg_console0 (log_message text_console0 bootstrapped)"
    using logged_message_goes_on
      [of bootstrapped "enveloped (Some ''S1'') text_console0" text_console0 parse_table
          msg_console0 stringify_plain]
      from_attached_enveloped [of bootstrapped text_console0]
    by (simp add: bootstrapped_facts parse_table_facts msg_console0_def msg_console_def)
  show ?thesis
    unfolding envelope_def step
    by (simp add: correlate_def log_message_def settlement_of_def error_message_def crash_def
        msg_console0_def msg_console_def bootstrapped_eq)
qed

section \<open>The claims\<close>

text \<open>
  C1. Requests are issued through \<open>sendMessageToTarget\<close> (of which \<open>evaluate\<close> is a
  case) on an attached client whose loop is running, and responses to some of them arrive
  in any order \<open>ks\<close>. Then the promise returned by the \<open>j\<close>-th call is settled by exactly
  the response that carries the id drawn by that call, \<open>lastId + 1 + j\<close>, with what lines
  261 to 272 make of that response; it stays unsettled if no response with that id has
  arrived. A response is a target message without a method that has a result, or an error
  with a message (\<open>answers\<close>).
\<close>

theorem responses_pair_by_id:
  assumes "truthy (session s)" and "\<not> transport_closed s" and "loop s = Running"
    and "\<forall>h. next_promise s \<le> h \<longrightarrow> promises s h = None"
    and "distinct ks"
    and "\<forall>k\<in>set ks. lastId s < k \<and> k \<le> lastId s + int (length reqs)"
    and "\<forall>k\<in>set ks. answers parse stringify (txt k) k (v k)"
  shows "\<forall>j<length reqs.
           fst (issue reqs s) ! j = Inr (next_promise s + j) \<and>
           promises (readLoop parse stringify (map (\<lambda>k. envelope (session s) (txt k)) ks)
                       (snd (issue reqs s))) (next_promise s + j)
             = (if lastId s + 1 + int j \<in> set ks then Some (v (lastId s + 1 + int j)) else None)"
proof (intro allI impI)
  fix j assume j: "j < length reqs"
  let ?t = "snd (issue reqs s)"
  let ?fin = "readLoop parse stringify (map (\<lambda>k. envelope (session ?t) (txt k)) ks) ?t"
  note keeps = issue_keeps [OF assms(1,2), of reqs]
  have sess: "session ?t = session s" using keeps by simp
  have run: "loop ?t = Running" "\<not> transport_closed ?t"
    using keeps assms(3) by simp_all
  have pend: "\<And>k. k \<in> set ks \<Longrightarrow> pending ?t k = Some (next_promise s + nat (k - lastId s - 1))"
  proof -
    fix k assume "k \<in> set ks"
    then have range: "lastId s < k" "k \<le> lastId s + int (length reqs)"
      using assms(6) by simp_all
    then have "nat (k - lastId s - 1) < length reqs" by simp
    from issue_assigns [OF assms(1,2) this] range
    show "pending ?t k = Some (next_promise s + nat (k - lastId s - 1))" by simp
  qed
  have inj: "\<forall>k\<in>set ks. \<forall>k'\<in>set ks. \<forall>h. pending ?t k = Some h \<and> pending ?t k' = Some h \<longrightarrow> k = k'"
  proof (intro ballI allI impI)
    fix k k' h assume k: "k \<in> set ks" and k': "k' \<in> set ks"
      and h: "pending ?t k = Some h \<and> pending ?t k' = Some h"
    have "lastId s < k" "lastId s < k'" using assms(6) k k' by simp_all
    moreover have "nat (k - lastId s - 1) = nat (k' - lastId s - 1)"
      using h pend [OF k] pend [OF k'] by simp
    ultimately show "k = k'" by simp
  qed
  have unset: "\<forall>k\<in>set ks. \<forall>h. pending ?t k = Some h \<longrightarrow> promises ?t h = None"
    using pend keeps assms(4) by auto
  note deliver = readLoop_answers [OF run assms(5,7) inj unset]
  have first: "fst (issue reqs s) ! j = Inr (next_promise s + j)"
    and mine: "pending ?t (lastId s + 1 + int j) = Some (next_promise s + j)"
    using issue_assigns [OF assms(1,2) j] by simp_all
  have second: "promises ?fin (next_promise s + j)
                  = (if lastId s + 1 + int j \<in> set ks then Some (v (lastId s + 1 + int j)) else None)"
  proof (cases "lastId s + 1 + int j \<in> set ks")
    case True
    then show ?thesis using deliver mine by auto
  next
    case False
    have "\<forall>k\<in>set ks. pending ?t k \<noteq> Some (next_promise s + j)"
    proof
      fix k assume k: "k \<in> set ks"
      have "lastId s < k" using assms(6) k by simp
      then have "nat (k - lastId s - 1) \<noteq> j" using False k by auto
      then show "pending ?t k \<noteq> Some (next_promise s + j)"
        by (simp add: pend [OF k])
    qed
    then have "promises ?fin (next_promise s + j) = promises ?t (next_promise s + j)"
      using deliver by blast
    also have "\<dots> = None" using keeps assms(4) by simp
    finally show ?thesis using False by simp
  qed
  show "fst (issue reqs s) ! j = Inr (next_promise s + j) \<and>
        promises (readLoop parse stringify (map (\<lambda>k. envelope (session s) (txt k)) ks)
                    (snd (issue reqs s))) (next_promise s + j)
          = (if lastId s + 1 + int j \<in> set ks then Some (v (lastId s + 1 + int j)) else None)"
    using first second by (simp add: sess)
qed

theorem responses_pair_by_id_witness:
  "truthy (session bootstrapped) \<and> \<not> transport_closed bootstrapped \<and> loop bootstrapped = Running \<and>
   next_promise bootstrapped = 2 \<and> lastId bootstrapped = 0 \<and> promises bootstrapped = Map.empty \<and>
   distinct [2, 1 :: int] \<and>
   answers parse_table stringify_plain (text_value 2) 2 (value_settlement 2) \<and>
   answers parse_table stringify_plain (text_value 1) 1 (value_settlement 1) \<and>
   fst (issue two_calls bootstrapped) = [Inr 2, Inr 3] \<and>
   promises (readLoop parse_table stringify_plain
               [envelope (Some ''S1'') (text_value 2), envelope (Some ''S1'') (text_value 1)]
               (snd (issue two_calls bootstrapped))) 2 = Some (value_settlement 1) \<and>
   promises (readLoop parse_table stringify_plain
               [envelope (Some ''S1'') (text_value 2), envelope (Some ''S1'') (text_value 1)]
               (snd (issue two_calls bootstrapped))) 3 = Some (value_settlement 2)"
proof -
  have facts: "truthy (session bootstrapped)" "\<not> transport_closed bootstrapped"
    "loop bootstrapped = Running" "next_promise bootstrapped = 2" "lastId bootstrapped = 0"
    "promises bootstrapped = Map.empty" "session bootstrapped = Some ''S1''"
    by (simp_all add: bootstrapped_eq)
  have len: "length two_calls = 2" by (simp add: two_calls_def)
  have issued: "fst (issue two_calls bootstrapped) = [Inr 2, Inr 3]"
    by (simp add: two_calls_def sendMessageToTarget_ok facts split: prod.splits)
  note paired = responses_pair_by_id
    [of bootstrapped "[2, 1]" two_calls parse_table stringify_plain text_value value_settlement]
  have all: "\<forall>j<2. promises (readLoop parse_table stringify_plain
               [envelope (Some ''S1'') (text_value 2), envelope (Some ''S1'') (text_value 1)]
               (snd (issue two_calls bootstrapped))) (2 + j)
             = (if 1 + int j \<in> set [2, 1] then Some (value_settlement (1 + int j)) else None)"
    using paired by (simp add: facts len answers_value)
  have "promises (readLoop parse_table stringify_plain
               [envelope (Some ''S1'') (text_value 2), envelope (Some ''S1'') (text_value 1)]
               (snd (issue two_calls bootstrapped))) 2 = Some (value_settlement 1) \<and>
            promises (readLoop parse_table stringify_plain
               [envelope (Some ''S1'') (text_value 2), envelope (Some ''S1'') (text_value 1)]
               (snd (issue two_calls bootstrapped))) 3 = Some (value_settlement 2)"
    using all [rule_format, of 0] all [rule_format, of 1] by simp
  then show ?thesis
    using facts issued answers_value by simp
qed




text \<open>
  C3. The claim fails on the code at the first request after the bootstrap: \<open>findTarget\<close>
  has sent the id 0 and \<open>startSession\<close> the id 1, the counter still stands at 0, and the
  first call of \<open>sendMessageToTarget\<close> draws the id 1 again. Its promise replaces the one
  that \<open>startSession\<close> has left in the correlation table under 1. (The ids do count up by
  one from there, see \<open>issue_ids\<close>.)
\<close>

theorem first_request_reuses_attach_id:
  "map o_id (outbox bootstrapped) = [0, 1] \<and> lastId bootstrapped = 0 \<and>
   pending bootstrapped 1 = Some 1 \<and>
   fst (sendMessageToTarget ''Page.enable'' (JObj []) bootstrapped) = Inr 2 \<and>
   map o_id (outbox (snd (sendMessageToTarget ''Page.enable'' (JObj []) bootstrapped))) = [0, 1, 1] \<and>
   pending (snd (sendMessageToTarget ''Page.enable'' (JObj []) bootstrapped)) 1 = Some 2"
  by (simp add: bootstrapped_eq send_defs)

text \<open>
  C4. The claim fails on the code when \<open>receive\<close> fails and the transport is still open:
  the error is logged, but the loop does not go on to the next \<open>receive\<close>. Control falls
  through to line 180 with \<open>m\<close> unassigned, \<open>m.method\<close> throws, and the loop is over: the
  message that the transport delivers next (here, that the attached target is gone) is
  not processed.
\<close>

theorem receive_failure_ends_loop:
  "readLoop parse stringify [Failure ''reset'' False, targetDestroyed_T1] bootstrapped =
     bootstrapped\<lparr>logged := [Error ''reset''], loop := Crashed (TypeError ''m is undefined'')\<rparr>"
  by (simp add: iteration_def guard_def body_failure bootstrapped_eq)

text \<open>
  C5. The claim fails on the code for the console event as a browser sends it, without an
  id: line 211 asks \<open>res.id == 0\<close> of it, which is false for an absent id, so the event
  is not forwarded to the logger; it goes to the lookup of line 254, which finds nothing.
  (An event that is logged is not done either, see \<open>logged_message_goes_on\<close>.)
\<close>

theorem console_event_without_id_not_logged:
  "from_attached bootstrapped (enveloped (Some ''S1'') text_console) text_console \<and>
   parse_table text_console = Some msg_console \<and>
   res_method msg_console = Some ''Runtime.consoleAPICalled'' \<and>
   logged (iteration parse_table stringify_plain (envelope (Some ''S1'') text_console) bootstrapped) = []"
  using from_attached_enveloped [of bootstrapped text_console]
  by (simp add: envelope_def iteration_attached [of _ _ text_console _ msg_console]
      bootstrapped_facts parse_table_facts msg_console_def correlate_def)


text \<open>
  C7. When the loop is running and a \<open>Target.targetDestroyed\<close> event arrives: if its
  target id is that of the attached target, \<open>exit\<close> is called exactly once and the loop
  is over, so that none of the messages that the transport still delivers is processed; if
  it is any other target id, the turn of the loop changes nothing.
\<close>

theorem targetDestroyed_exits_once:
  assumes "loop s = Running" and "\<not> transport_closed s"
    and "m_method m = Some ''Target.targetDestroyed''" and "m_params m = Some ps"
  shows "(p_targetId ps = target s \<longrightarrow>
            readLoop parse stringify (Message m # rest) s = (exit s)\<lparr>loop := Stopped\<rparr> \<and>
            exit_calls (readLoop parse stringify (Message m # rest) s) = Suc (exit_calls s) \<and>
            loop (readLoop parse stringify (Message m # rest) s) = Stopped) \<and>
         (p_targetId ps \<noteq> target s \<longrightarrow> iteration parse stringify (Message m) s = s)"
proof -
  have b: "body parse stringify (Message m) s =
             (if p_targetId ps = target s then (exit s)\<lparr>loop := Stopped\<rparr> else s)"
    using assms(3,4) by (simp add: body_def targetDestroyed_def)
  have it: "iteration parse stringify (Message m) s = body parse stringify (Message m) s"
    using assms(1,2) by (rule iteration_running)
  show ?thesis
  proof (intro conjI impI)
    assume eq: "p_targetId ps = target s"
    have "readLoop parse stringify (Message m # rest) s = readLoop parse stringify rest ((exit s)\<lparr>loop := Stopped\<rparr>)"
      using eq by (simp add: it b)
    also have "\<dots> = (exit s)\<lparr>loop := Stopped\<rparr>"
      by (rule readLoop_over) simp
    finally show r: "readLoop parse stringify (Message m # rest) s = (exit s)\<lparr>loop := Stopped\<rparr>" .
    show "exit_calls (readLoop parse stringify (Message m # rest) s) = Suc (exit_calls s)"
      unfolding r by (simp add: exit_def)
    show "loop (readLoop parse stringify (Message m # rest) s) = Stopped"
      unfolding r by simp
  next
    assume "p_targetId ps \<noteq> target s"
    then show "iteration parse stringify (Message m) s = s"
      by (simp add: it b)
  qed
qed

theorem targetDestroyed_exits_once_witness:
  "loop bootstrapped = Running \<and> \<not> transport_closed bootstrapped \<and>
   m_method (destroyed ''T1'') = Some ''Target.targetDestroyed'' \<and>
   m_method (destroyed ''T2'') = Some ''Target.targetDestroyed'' \<and>
   target bootstrapped = Some ''T1'' \<and> exit_calls bootstrapped = 0 \<and>
   exit_calls (readLoop parse_table stringify_plain
                 [Message (destroyed ''T1''), envelope (Some ''S1'') text_exception] bootstrapped) = 1 \<and>
   loop (readLoop parse_table stringify_plain
           [Message (destroyed ''T1''), envelope (Some ''S1'') text_exception] bootstrapped) = Stopped \<and>
   logged (readLoop parse_table stringify_plain
             [Message (destroyed ''T1''), envelope (Some ''S1'') text_exception] bootstrapped) = [] \<and>
   iteration parse_table stringify_plain (Message (destroyed ''T2'')) bootstrapped = bootstrapped"
  using targetDestroyed_exits_once
    [of bootstrapped "destroyed ''T1''"
        "\<lparr>p_sessionId = None, p_message = None, p_targetId = Some ''T1'', p_targetInfo = None\<rparr>"
        parse_table stringify_plain "[envelope (Some ''S1'') text_exception]"]
    targetDestroyed_exits_once
    [of bootstrapped "destroyed ''T2''"
        "\<lparr>p_sessionId = None, p_message = None, p_targetId = Some ''T2'', p_targetInfo = None\<rparr>"
        parse_table stringify_plain "[]"]
  by (simp add: destroyed_def bootstrapped_eq exit_def)


text \<open>
  C9. A call of \<open>sendMessageToTarget\<close>, and so of \<open>evaluate\<close>, on a client whose session id
  has not been stored throws the assertion failure "session must be created" and leaves the
  whole state as it was: nothing is handed to the transport, no entry is put into the
  correlation table and no id is drawn.
\<close>

theorem sendMessageToTarget_without_session:
  "session s = None \<Longrightarrow>
     sendMessageToTarget method args s = (Inl (AssertionError ''session must be created''), s) \<and>
     evaluate expr s = (Inl (AssertionError ''session must be created''), s)"
  by (simp add: sendMessageToTarget_def evaluate_def)

theorem sendMessageToTarget_without_session_witness:
  "session new_chrome = None \<and>
   sendMessageToTarget ''Page.enable'' (JObj []) new_chrome =
     (Inl (AssertionError ''session must be created''), new_chrome) \<and>
   evaluate ''1 + 1'' new_chrome = (Inl (AssertionError ''session must be created''), new_chrome)"
  using sendMessageToTarget_without_session [of new_chrome "''Page.enable''" "JObj []" "''1 + 1''"]
  by (simp add: new_chrome_def)

text \<open>
  C10. A target message from the attached session with the method \<open>Runtime.bindingCalled\<close>
  and no id leaves the whole state as it was: no binding is invoked, no task is in flight,
  nothing is sent and no pending request is settled or removed. The message passes lines
  211 and 213, which ask for the id 0, and the lookup of line 254 finds nothing.
\<close>

theorem bindingCalled_without_id_dropped:
  assumes "loop s = Running" and "\<not> transport_closed s"
    and "from_attached s m txt" and "parse txt = Some res"
    and "res_id res = None" and "res_method res = Some ''Runtime.bindingCalled''"
  shows "iteration parse stringify (Message m) s = s"
  using assms by (simp add: iteration_attached correlate_def)

theorem bindingCalled_without_id_dropped_witness:
  "loop with_greet = Running \<and> \<not> transport_closed with_greet \<and>
   from_attached with_greet (enveloped (Some ''S1'') text_binding) text_binding \<and>
   parse_table text_binding = Some msg_binding \<and>
   res_id msg_binding = None \<and> res_method msg_binding = Some ''Runtime.bindingCalled'' \<and>
   bindings with_greet ''greet'' = Some greet \<and>
   iteration parse_table stringify_plain (Message (enveloped (Some ''S1'') text_binding)) with_greet
     = with_greet"
  using bindingCalled_without_id_dropped
    [of with_greet "enveloped (Some ''S1'') text_binding" text_binding parse_table msg_binding
        stringify_plain]
    from_attached_enveloped [of with_greet text_binding]
  by (simp add: with_greet_facts parse_table_facts msg_binding_def)

end
